theory Spec2Isabelle
  imports Complex_Main "HOL-Library.Monad_Syntax"
begin

section \<open>Python values used by tars.py\<close>

subsection \<open>Double-precision floats\<close>

text \<open>
  A Python \<open>float\<close> is an IEEE 754 binary64 value. The finite ones are modelled by the
  rational they denote, with the two infinities beside them. NaN and the negative zero are
  left out: the program only parses non-negative decimal numerals, divides and multiplies
  by 100 and compares, and none of these produces either of them.
\<close>

datatype pyfloat = Finite rat | PosInf | NegInf

text \<open>The number of binary digits of a positive integer.\<close>

function bit_length :: "int \<Rightarrow> nat" where
  "bit_length n = (if n \<le> 0 then 0 else Suc (bit_length (n div 2)))"
  by pat_completeness auto
termination
  by (relation "measure nat") auto

declare bit_length.simps [simp del]

definition pow2 :: "int \<Rightarrow> rat" where
  "pow2 e = (if 0 \<le> e then of_int (2 ^ nat e) else 1 / of_int (2 ^ nat (- e)))"

text \<open>For \<open>a > 0\<close>, the exponent \<open>e\<close> with \<open>2^e \<le> a < 2^(e+1)\<close>.\<close>

definition floor_log2 :: "rat \<Rightarrow> int" where
  "floor_log2 a =
     (case quotient_of a of (p, q) \<Rightarrow>
        let d = int (bit_length p) - int (bit_length q)
        in if pow2 d \<le> a then d else d - 1)"

text \<open>Rounding to the nearest integer, a tie going to the even neighbour.\<close>

definition round_half_even :: "rat \<Rightarrow> int" where
  "round_half_even x =
     (let f = \<lfloor>x\<rfloor>; r = x - of_int f
      in if r < 1 / 2 then f
         else if 1 / 2 < r then f + 1
         else if even f then f else f + 1)"

text \<open>
  Rounding an exact result to binary64 (round to nearest, ties to even): 53 significant
  bits, the least exponent of a normal number being \<open>-1022\<close>, and overflow to an infinity
  from \<open>2^1024\<close> on.
\<close>

definition round_double :: "rat \<Rightarrow> pyfloat" where
  "round_double x =
     (if x = 0 then Finite 0
      else
        let a = \<bar>x\<bar>;
            e = max (floor_log2 a) (- 1022) - 52;
            r = of_int (round_half_even (a / pow2 e)) * pow2 e
        in if pow2 1024 \<le> r then (if 0 < x then PosInf else NegInf)
           else Finite (if 0 < x then r else - r))"

text \<open>The comparison \<open>a < b\<close> of two floats.\<close>

fun float_less :: "pyfloat \<Rightarrow> pyfloat \<Rightarrow> bool" where
  "float_less (Finite a) (Finite b) = (a < b)"
| "float_less (Finite a) PosInf = True"
| "float_less (Finite a) NegInf = False"
| "float_less PosInf b = False"
| "float_less NegInf NegInf = False"
| "float_less NegInf b = True"

text \<open>\<open>value / 100.0\<close> and \<open>value * 100\<close>: the exact quotient and product, rounded.\<close>

fun div_100 :: "pyfloat \<Rightarrow> pyfloat" where
  "div_100 (Finite a) = round_double (a / 100)"
| "div_100 PosInf = PosInf"
| "div_100 NegInf = NegInf"

fun times_100 :: "pyfloat \<Rightarrow> pyfloat" where
  "times_100 (Finite a) = round_double (a * 100)"
| "times_100 PosInf = PosInf"
| "times_100 NegInf = NegInf"

text \<open>
  Python's \<open>min(a, b)\<close> and \<open>max(a, b)\<close> keep the first argument unless the second is
  strictly smaller (respectively larger).
\<close>

definition py_min :: "pyfloat \<Rightarrow> pyfloat \<Rightarrow> pyfloat" where
  "py_min a b = (if float_less b a then b else a)"

definition py_max :: "pyfloat \<Rightarrow> pyfloat \<Rightarrow> pyfloat" where
  "py_max a b = (if float_less a b then b else a)"

subsection \<open>Strings\<close>

text \<open>
  A Python \<open>str\<close> is a sequence of code points. The model takes the code points below 256,
  one \<open>char\<close> each. Among them \<open>\s\<close> and \<open>str.strip\<close> take as white space the
  characters 9 to 13, 28 to 32, 133 and 160, and \<open>\d\<close> takes the ten ASCII digits.
\<close>

definition is_space :: "char \<Rightarrow> bool" where
  "is_space c \<longleftrightarrow>
     of_char c \<in> set [9, 10, 11, 12, 13, 28, 29, 30, 31, 32, 133, 160 :: nat]"

definition is_digit :: "char \<Rightarrow> bool" where
  "is_digit c \<longleftrightarrow> c \<in> set ''0123456789''"

definition digit_val :: "char \<Rightarrow> int" where
  "digit_val c = of_char c - of_char CHR ''0''"

text \<open>The value of a digit string, read in base ten.\<close>

definition digits_val :: "string \<Rightarrow> int" where
  "digits_val ds = foldl (\<lambda>n c. 10 * n + digit_val c) 0 ds"

text \<open>\<open>prefix in s\<close> at the start of \<open>s\<close>: what is left of \<open>s\<close> after the literal.\<close>

fun strip_prefix :: "string \<Rightarrow> string \<Rightarrow> string option" where
  "strip_prefix [] s = Some s"
| "strip_prefix (p # ps) [] = None"
| "strip_prefix (p # ps) (c # cs) = (if p = c then strip_prefix ps cs else None)"

text \<open>The test \<open>needle in s\<close> of Python: \<open>needle\<close> occurs in \<open>s\<close> as a substring.\<close>

fun contains :: "string \<Rightarrow> string \<Rightarrow> bool" where
  "contains needle [] = (needle = [])"
| "contains needle (c # cs) =
     (strip_prefix needle (c # cs) \<noteq> None \<or> contains needle cs)"

text \<open>\<open>s.strip()\<close> and \<open>s.endswith(('.', '!', '?'))\<close>.\<close>

definition strip :: "string \<Rightarrow> string" where
  "strip s = rev (dropWhile is_space (rev (dropWhile is_space s)))"

definition is_terminator :: "char \<Rightarrow> bool" where
  "is_terminator c \<longleftrightarrow> c = CHR ''.'' \<or> c = CHR ''!'' \<or> c = CHR ''?''"

definition ends_with_terminator :: "string \<Rightarrow> bool" where
  "ends_with_terminator s \<longleftrightarrow> s \<noteq> [] \<and> is_terminator (last s)"

text \<open>
  \<open>float(value_str)\<close> for the numerals that group 4 of the two patterns captures, digits
  with an optional fraction: the decimal value, correctly rounded. \<open>None\<close> stands for a
  \<open>ValueError\<close>; the model gives it to every string of another form, which the patterns
  never hand over.
\<close>

definition py_float :: "string \<Rightarrow> pyfloat option" where
  "py_float s =
     (let ip = takeWhile is_digit s; r = dropWhile is_digit s
      in if ip = [] then None
         else if r = [] then Some (round_double (of_int (digits_val ip)))
         else if hd r = CHR ''.'' \<and> tl r \<noteq> [] \<and> list_all is_digit (tl r)
           then Some (round_double (of_int (digits_val (ip @ tl r)) / 10 ^ length (tl r)))
         else None)"

text \<open>Decimal digits of a natural number, and the format \<open>{x:.0f}\<close> of a float.\<close>

fun show_nat :: "nat \<Rightarrow> string" where
  "show_nat n =
     (if n < 10 then [''0123456789'' ! n]
      else show_nat (n div 10) @ [''0123456789'' ! (n mod 10)])"

declare show_nat.simps [simp del]

definition format_0f :: "pyfloat \<Rightarrow> string" where
  "format_0f x =
     (case x of
        Finite r \<Rightarrow>
          (if r < 0 then ''-'' @ show_nat (nat (round_half_even (- r)))
           else show_nat (nat (round_half_even r)))
      | PosInf \<Rightarrow> ''inf''
      | NegInf \<Rightarrow> ''-inf'')"


text \<open>The truth value of a Python value that is \<open>None\<close> or a \<open>str\<close>.\<close>

definition truthy :: "string option \<Rightarrow> bool" where
  "truthy v = (case v of None \<Rightarrow> False | Some t \<Rightarrow> t \<noteq> [])"

section \<open>The two adjustment patterns\<close>

text \<open>
  \<open>pattern_full\<close> is
  \<^verbatim>\<open>(set|adjust)\s+(?:your\s+)?(honesty|humor)(\s+level)?\s+to\s+(\d+(?:\.\d+)?)(\s*%| percent)?\<close>
  and \<open>pattern_it\<close> is
  \<^verbatim>\<open>(set|adjust)\s+it\s+to\s+(\d+(?:\.\d+)?)(\s*%| percent)?\<close>.
  Each piece of them is followed by a piece that starts with a character the piece itself
  cannot take (a letter or a digit after white space, \<open>y\<close> or \<open>h\<close> after the optional
  \<open>your\<close>, \<open>l\<close> or \<open>t\<close> after the parameter), and everything after the first digits is
  optional. So at a given start the regular-expression engine has one way to match, the
  greedy one, and backtracking never finds another: the matchers below read the pieces from
  left to right, each returning the text that is left.
\<close>

datatype param = Honesty | Humor

text \<open>\<open>\s+\<close>\<close>

definition spaces1 :: "string \<Rightarrow> string option" where
  "spaces1 s = (if s \<noteq> [] \<and> is_space (hd s) then Some (dropWhile is_space s) else None)"

text \<open>\<open>(set|adjust)\<close>\<close>

definition verb_group :: "string \<Rightarrow> string option" where
  "verb_group s =
     (case strip_prefix ''set'' s of Some r \<Rightarrow> Some r | None \<Rightarrow> strip_prefix ''adjust'' s)"

text \<open>\<open>(?:your\s+)?\<close>\<close>

definition optional_your :: "string \<Rightarrow> string option" where
  "optional_your s = (case strip_prefix ''your'' s of Some r \<Rightarrow> spaces1 r | None \<Rightarrow> Some s)"

text \<open>\<open>(honesty|humor)\<close>\<close>

definition param_group :: "string \<Rightarrow> (param \<times> string) option" where
  "param_group s =
     (case strip_prefix ''honesty'' s of
        Some r \<Rightarrow> Some (Honesty, r)
      | None \<Rightarrow> map_option (Pair Humor) (strip_prefix ''humor'' s))"

text \<open>\<open>(\s+level)?\s+\<close>, the white space at its start being common to both readings.\<close>

definition optional_level :: "string \<Rightarrow> string option" where
  "optional_level s =
     do {
       r \<leftarrow> spaces1 s;
       case strip_prefix ''level'' r of Some t \<Rightarrow> spaces1 t | None \<Rightarrow> Some r
     }"

text \<open>\<open>(\d+(?:\.\d+)?)\<close>: the captured numeral and the text after it.\<close>

definition numeral_group :: "string \<Rightarrow> (string \<times> string) option" where
  "numeral_group s =
     (let ip = takeWhile is_digit s; r = dropWhile is_digit s
      in if ip = [] then None
         else case r of
                c # f # t \<Rightarrow>
                  if c = CHR ''.'' \<and> is_digit f
                  then Some (ip @ c # takeWhile is_digit (f # t), dropWhile is_digit (f # t))
                  else Some (ip, r)
              | _ \<Rightarrow> Some (ip, r))"

text \<open>\<open>(\s*%| percent)?\<close>: the text of the group, \<open>None\<close> when it takes no part.\<close>

definition percent_group :: "string \<Rightarrow> string option" where
  "percent_group s =
     (let ws = takeWhile is_space s; r = dropWhile is_space s
      in if r \<noteq> [] \<and> hd r = CHR ''%'' then Some (ws @ ''%'')
         else if strip_prefix '' percent'' s \<noteq> None then Some '' percent''
         else None)"

text \<open>A match of \<open>pattern_full\<close> at the start of \<open>s\<close>: groups 2, 4 and 5.\<close>

definition match_full :: "string \<Rightarrow> (param \<times> string \<times> string option) option" where
  "match_full s =
     do {
       s1 \<leftarrow> verb_group s;
       s2 \<leftarrow> spaces1 s1;
       s3 \<leftarrow> optional_your s2;
       (p, s4) \<leftarrow> param_group s3;
       s5 \<leftarrow> optional_level s4;
       s6 \<leftarrow> strip_prefix ''to'' s5;
       s7 \<leftarrow> spaces1 s6;
       (n, s8) \<leftarrow> numeral_group s7;
       Some (p, n, percent_group s8)
     }"

text \<open>A match of \<open>pattern_it\<close> at the start of \<open>s\<close>: groups 2 and 3.\<close>

definition match_it :: "string \<Rightarrow> (string \<times> string option) option" where
  "match_it s =
     do {
       s1 \<leftarrow> verb_group s;
       s2 \<leftarrow> spaces1 s1;
       s3 \<leftarrow> strip_prefix ''it'' s2;
       s4 \<leftarrow> spaces1 s3;
       s5 \<leftarrow> strip_prefix ''to'' s4;
       s6 \<leftarrow> spaces1 s5;
       (n, s7) \<leftarrow> numeral_group s6;
       Some (n, percent_group s7)
     }"

text \<open>\<open>re.search\<close>: the match at the leftmost start that has one.\<close>

fun re_search :: "(string \<Rightarrow> 'a option) \<Rightarrow> string \<Rightarrow> 'a option" where
  "re_search m [] = m []"
| "re_search m (c # cs) =
     (case m (c # cs) of Some r \<Rightarrow> Some r | None \<Rightarrow> re_search m cs)"

section \<open>The personality state and its adjustment\<close>

text \<open>The three globals \<open>honesty_level\<close>, \<open>humor_level\<close> and \<open>pending_param\<close>.\<close>

record state =
  honesty_level :: pyfloat
  humor_level :: pyfloat
  pending_param :: "param option"

definition initial_state :: state where
  "initial_state =
     \<lparr>honesty_level = round_double (8 / 10), humor_level = round_double (6 / 10),
      pending_param = None\<rparr>"

text \<open>
  The first half of \<open>adjust_personality\<close> (lines 58 to 79, the parameter is named): the
  sentence it returns and the new state, or \<open>None\<close> when control goes on to the second
  half, which is when the pattern is not found or \<open>float\<close> raises (the \<open>except\<close> branch
  prints and falls through; \<open>numeral_group_parses\<close> below shows that it is never taken).
\<close>

definition adjust_named :: "string \<Rightarrow> state \<Rightarrow> (string \<times> state) option" where
  "adjust_named user_input st =
     (case re_search match_full user_input of
        None \<Rightarrow> None
      | Some (param, value_str, percent_indicator) \<Rightarrow>
          (case py_float value_str of
             None \<Rightarrow> None
           | Some value \<Rightarrow>
               let value = (if truthy percent_indicator \<or> float_less (Finite 1) value
                            then div_100 value else value);
                   value = py_max (Finite 0) (py_min value (Finite 1))
               in (case param of
                     Honesty \<Rightarrow>
                       Some (''Adjusted my honesty level to '' @ format_0f (times_100 value)
                               @ '' percent.'',
                             st\<lparr>honesty_level := value, pending_param := None\<rparr>)
                   | Humor \<Rightarrow>
                       Some (''Adjusted my humor level to '' @ format_0f (times_100 value)
                               @ '' percent.'',
                             st\<lparr>humor_level := value, pending_param := None\<rparr>))))"

text \<open>
  The second half (lines 81 to 101: \<open>set it to X\<close>, with a pending parameter). The pending
  parameter is \<open>None\<close> or one of the two names, so \<open>result\<close> is always bound.
\<close>

definition adjust_pending :: "string \<Rightarrow> state \<Rightarrow> (string \<times> state) option" where
  "adjust_pending user_input st =
     (case re_search match_it user_input of
        None \<Rightarrow> None
      | Some (value_str, percent_indicator) \<Rightarrow>
          (case pending_param st of
             None \<Rightarrow> None
           | Some pending \<Rightarrow>
               (case py_float value_str of
                  None \<Rightarrow> None
                | Some value \<Rightarrow>
                    let value = (if truthy percent_indicator \<or> float_less (Finite 1) value
                                 then div_100 value else value);
                        value = py_max (Finite 0) (py_min value (Finite 1))
                    in (case pending of
                          Honesty \<Rightarrow>
                            Some (''Adjusted my honesty level to ''
                                    @ format_0f (times_100 value) @ '' percent.'',
                                  st\<lparr>honesty_level := value, pending_param := None\<rparr>)
                        | Humor \<Rightarrow>
                            Some (''Adjusted my humor level to ''
                                    @ format_0f (times_100 value) @ '' percent.'',
                                  st\<lparr>humor_level := value, pending_param := None\<rparr>)))))"

text \<open>\<open>adjust_personality\<close>: the value returned (\<open>None\<close> or the sentence) and the state.\<close>

definition adjust_personality :: "string \<Rightarrow> state \<Rightarrow> string option \<times> state" where
  "adjust_personality user_input st =
     (case adjust_named user_input st of
        Some (sentence, st') \<Rightarrow> (Some sentence, st')
      | None \<Rightarrow>
          (case adjust_pending user_input st of
             Some (sentence, st') \<Rightarrow> (Some sentence, st')
           | None \<Rightarrow> (None, st)))"


section \<open>What a turn does to the outside\<close>

text \<open>
  The effects of a turn are recorded in order: a sentence handed to \<open>speak\<close>, a process
  launch (\<open>subprocess.Popen\<close> or \<open>os.system\<close> being called), a call of the language model
  with the two percentages of its system prompt and the user's text, and an error line
  printed by an \<open>except\<close> branch (without the text of the exception). \<open>speak\<close> swallows its
  own playback errors, so a \<open>Speak\<close> event stands for the call.
\<close>

datatype command = OpenBrowser | SystemInfo

datatype event =
    Speak string
  | Launch command
  | Chat string string string
  | Log string

text \<open>
  What the outside gives to a turn: the text \<open>listen()\<close> returns, \<open>os.name\<close>, what the
  launch call does (it returns, whether or not the launched process then does its job, or
  it raises), and what \<open>chat\<close> does.
\<close>

datatype os_name = Posix | Nt | OtherOs

datatype launch_outcome = Returned bool | Raised

text \<open>
  The reply of \<open>chat\<close>, as far as \<open>generate_llm_response\<close> looks at it. A field value is a
  \<open>str\<close> or \<open>None\<close>. A reply is a dict, given by its entries \<open>response\<close> and \<open>message\<close>
  (where present), or another object, given by its \<open>message.content\<close> (where both
  attributes exist); a message inside a dict is again a dict, given by its entry
  \<open>content\<close>, or another object, given by its attribute \<open>content\<close>.
\<close>

datatype pyval = PyStr string | PyNone

datatype message = MsgDict "pyval option" | MsgObj "pyval option"

datatype reply =
    ChatRaises
  | ReplyDict "pyval option" "message option"
  | ReplyObj "pyval option"

record turn_input =
  heard :: string
  platform :: os_name
  launch_result :: launch_outcome
  chat_reply :: reply

section \<open>The language-model reply\<close>

text \<open>\<open>v.strip()\<close> for a field value: \<open>None\<close> has no such method (\<open>AttributeError\<close>).\<close>

definition strip_value :: "pyval \<Rightarrow> string option" where
  "strip_value v = (case v of PyStr t \<Rightarrow> Some (strip t) | PyNone \<Rightarrow> None)"

text \<open>
  Lines 131 to 136: the content of the \<open>message\<close> entry of a dict reply, \<open>None\<close> when
  taking it raises. A dict message is read with \<open>msg.get('content', '')\<close>.
\<close>

definition message_content :: "message option \<Rightarrow> string option" where
  "message_content entry =
     (case entry of
        None \<Rightarrow> Some []
      | Some (MsgDict None) \<Rightarrow> Some (strip [])
      | Some (MsgDict (Some v)) \<Rightarrow> strip_value v
      | Some (MsgObj None) \<Rightarrow> Some []
      | Some (MsgObj (Some v)) \<Rightarrow> strip_value v)"

text \<open>
  Lines 127 to 138: the content string taken out of the reply, \<open>None\<close> when \<open>chat\<close> or
  taking the content raises. The entry \<open>response\<close> is used when it is a non-empty string.
\<close>

definition extract_content :: "reply \<Rightarrow> string option" where
  "extract_content response =
     (case response of
        ChatRaises \<Rightarrow> None
      | ReplyDict (Some (PyStr t)) entry \<Rightarrow>
          if t \<noteq> [] then Some (strip t) else message_content entry
      | ReplyDict _ entry \<Rightarrow> message_content entry
      | ReplyObj None \<Rightarrow> Some []
      | ReplyObj (Some v) \<Rightarrow> strip_value v)"

text \<open>
  \<open>re.split(r'(?<=[.!?])\s+', s)\<close>: \<open>s\<close> is cut at every run of white space that follows
  one of \<open>.\<close>, \<open>!\<close> and \<open>?\<close>, the run being dropped. The first argument holds the piece
  read so far.
\<close>

function split_sentences :: "string \<Rightarrow> string \<Rightarrow> string list" where
  "split_sentences piece [] = [piece]"
| "split_sentences piece (c # cs) =
     (if is_terminator c \<and> cs \<noteq> [] \<and> is_space (hd cs)
      then (piece @ [c]) # split_sentences [] (dropWhile is_space cs)
      else split_sentences (piece @ [c]) cs)"
  by pat_completeness auto
termination
  by (relation "measure (\<lambda>(piece, s). length s)")
    (auto simp: length_dropWhile_le less_Suc_eq_le)

definition apology :: string where
  "apology = ''I'm sorry, something went wrong with my response.''"

text \<open>Lines 140 to 148: the first sentence, closed by a full stop if need be.\<close>

definition enforce_one_liner :: "string \<Rightarrow> string" where
  "enforce_one_liner llm_response =
     (let sentences = split_sentences [] llm_response;
          llm_response =
            (case sentences of
               [] \<Rightarrow> llm_response
             | first # _ \<Rightarrow>
                 (let r = strip first
                  in if \<not> ends_with_terminator r then r @ ''.'' else r))
      in if llm_response = [] then apology else llm_response)"

text \<open>
  \<open>generate_llm_response\<close>: the sentence returned and the events on the way. The reply of
  the model is an input of the turn.
\<close>

definition generate_llm_response :: "string \<Rightarrow> state \<Rightarrow> reply \<Rightarrow> string \<times> event list" where
  "generate_llm_response user_input st response =
     (let asked = Chat (format_0f (times_100 (honesty_level st)))
                       (format_0f (times_100 (humor_level st))) user_input
      in case extract_content response of
           None \<Rightarrow> (apology, [asked, Log ''LLM error''])
         | Some llm_response \<Rightarrow> (enforce_one_liner llm_response, [asked]))"

section \<open>System commands\<close>

text \<open>
  \<open>execute_command\<close>: whether a command was executed, and the events. Its two branches
  differ in the command, the confirmation and the error line only, and \<open>run_command\<close>
  is their common shape: the launch call and then \<open>speak\<close> inside \<open>try\<close>, the error line
  and \<open>return False\<close> in \<open>except\<close>. On a platform that is neither \<open>posix\<close> nor \<open>nt\<close>
  nothing is launched and the confirmation is spoken.
\<close>

definition run_command :: "command \<Rightarrow> string \<Rightarrow> string \<Rightarrow> os_name \<Rightarrow> launch_outcome
    \<Rightarrow> bool \<times> event list" where
  "run_command cmd confirmation failure os outcome =
     (if os = Posix \<or> os = Nt
      then (case outcome of
              Returned ok \<Rightarrow> (True, [Launch cmd, Speak confirmation])
            | Raised \<Rightarrow> (False, [Launch cmd, Log failure]))
      else (True, [Speak confirmation]))"

definition execute_command :: "string \<Rightarrow> os_name \<Rightarrow> launch_outcome \<Rightarrow> bool \<times> event list" where
  "execute_command user_input os outcome =
     (if contains ''open browser'' user_input
      then run_command OpenBrowser ''Opening browser.'' ''Error opening browser'' os outcome
      else if contains ''system info'' user_input
      then run_command SystemInfo ''Displaying system information.''
             ''Error retrieving system info'' os outcome
      else (False, []))"

section \<open>The main loop\<close>

definition is_query :: "string \<Rightarrow> string \<Rightarrow> bool" where
  "is_query name user_input \<longleftrightarrow>
     contains name user_input \<and> contains ''what'' user_input \<and> contains ''level'' user_input"

definition is_exit :: "string \<Rightarrow> bool" where
  "is_exit user_input \<longleftrightarrow>
     list_ex (\<lambda>exit_word. contains exit_word user_input) [''exit'', ''shut down'', ''goodbye'']"

text \<open>
  One pass through the body of \<open>while True\<close>: the new state, the events, and whether the
  loop goes on (\<open>False\<close> after \<open>break\<close>).
\<close>

definition turn :: "turn_input \<Rightarrow> state \<Rightarrow> state \<times> event list \<times> bool" where
  "turn inp st =
     (let user_input = heard inp
      in if user_input = [] then (st, [], True)
         else if is_query ''honesty'' user_input
         then (st\<lparr>pending_param := Some Honesty\<rparr>,
               [Speak (''My honesty level is '' @ format_0f (times_100 (honesty_level st))
                         @ '' percent.'')],
               True)
         else if is_query ''humor'' user_input
         then (st\<lparr>pending_param := Some Humor\<rparr>,
               [Speak (''My humor level is '' @ format_0f (times_100 (humor_level st))
                         @ '' percent.'')],
               True)
         else
           (case adjust_personality user_input st of
              (adjustment, st') \<Rightarrow>
                if truthy adjustment
                then (st', [Speak (case adjustment of Some a \<Rightarrow> a | None \<Rightarrow> [])], True)
                else if is_exit user_input
                then (st', [Speak ''Shutting down. Goodbye.''], False)
                else
                  (case execute_command user_input (platform inp) (launch_result inp) of
                     (True, evs) \<Rightarrow> (st', evs, True)
                   | (False, evs) \<Rightarrow>
                       (case generate_llm_response user_input st' (chat_reply inp) of
                          (response, evs') \<Rightarrow> (st', evs @ evs' @ [Speak response], True)))))"

text \<open>The loop over the turns of a session, as far as the inputs go; it stops at \<open>break\<close>.\<close>

fun run :: "turn_input list \<Rightarrow> state \<Rightarrow> state \<times> event list \<times> bool" where
  "run [] st = (st, [], True)"
| "run (inp # inps) st =
     (case turn inp st of
        (st', evs, False) \<Rightarrow> (st', evs, False)
      | (st', evs, True) \<Rightarrow>
          (case run inps st' of (st'', evs', going) \<Rightarrow> (st'', evs @ evs', going)))"

definition main_loop :: "turn_input list \<Rightarrow> state \<times> event list \<times> bool" where
  "main_loop inps =
     (case run inps initial_state of
        (st, evs, going) \<Rightarrow> (st, Speak ''TARS here. Awaiting your command.'' # evs, going))"

section \<open>Notions of the specification\<close>

text \<open>A level lies in the closed interval from 0 to 1.\<close>

definition in_unit :: "pyfloat \<Rightarrow> bool" where
  "in_unit x = (case x of Finite r \<Rightarrow> 0 \<le> r \<and> r \<le> 1 | PosInf \<Rightarrow> False | NegInf \<Rightarrow> False)"

text \<open>Clamping to that interval, and the normalisation of a parsed number.\<close>

definition clamp_unit :: "pyfloat \<Rightarrow> pyfloat" where
  "clamp_unit x =
     (if float_less x (Finite 0) then Finite 0
      else if float_less (Finite 1) x then Finite 1 else x)"

definition normalise :: "pyfloat \<Rightarrow> bool \<Rightarrow> pyfloat" where
  "normalise x percent =
     clamp_unit (if percent \<or> float_less (Finite 1) x then div_100 x else x)"

text \<open>The invariant of the state: both levels lie in the interval.\<close>

definition levels_in_range :: "state \<Rightarrow> bool" where
  "levels_in_range st \<longleftrightarrow> in_unit (honesty_level st) \<and> in_unit (humor_level st)"

text \<open>The two parameters, their names, their fields in the state.\<close>

definition param_name :: "param \<Rightarrow> string" where
  "param_name p = (case p of Honesty \<Rightarrow> ''honesty'' | Humor \<Rightarrow> ''humor'')"

definition other :: "param \<Rightarrow> param" where
  "other p = (case p of Honesty \<Rightarrow> Humor | Humor \<Rightarrow> Honesty)"

definition level :: "param \<Rightarrow> state \<Rightarrow> pyfloat" where
  "level p st = (case p of Honesty \<Rightarrow> honesty_level st | Humor \<Rightarrow> humor_level st)"

text \<open>Storing an adjusted value clears the pending parameter.\<close>

definition store :: "param \<Rightarrow> pyfloat \<Rightarrow> state \<Rightarrow> state" where
  "store p v st =
     (case p of
        Honesty \<Rightarrow> st\<lparr>honesty_level := v, pending_param := None\<rparr>
      | Humor \<Rightarrow> st\<lparr>humor_level := v, pending_param := None\<rparr>)"

text \<open>The sentences that confirm an adjustment and that answer a query.\<close>

definition confirmation :: "param \<Rightarrow> pyfloat \<Rightarrow> string" where
  "confirmation p v =
     ''Adjusted my '' @ param_name p @ '' level to '' @ format_0f (times_100 v) @ '' percent.''"

definition report :: "param \<Rightarrow> pyfloat \<Rightarrow> string" where
  "report p v =
     ''My '' @ param_name p @ '' level is '' @ format_0f (times_100 v) @ '' percent.''"

text \<open>The query rule that an utterance fires, the honesty one coming first.\<close>

definition queried :: "string \<Rightarrow> param option" where
  "queried u =
     (if is_query ''honesty'' u then Some Honesty
      else if is_query ''humor'' u then Some Humor else None)"

text \<open>
  Neither adjustment rule applies: the full pattern is not found, and the short one is not
  found or no parameter is pending.
\<close>

definition no_adjustment :: "string \<Rightarrow> state \<Rightarrow> bool" where
  "no_adjustment u st \<longleftrightarrow>
     re_search match_full u = None
     \<and> (re_search match_it u = None \<or> pending_param st = None)"

text \<open>The system command that an utterance asks for, with its two sentences.\<close>

definition command_of :: "string \<Rightarrow> command option" where
  "command_of u =
     (if contains ''open browser'' u then Some OpenBrowser
      else if contains ''system info'' u then Some SystemInfo else None)"

definition done_sentence :: "command \<Rightarrow> string" where
  "done_sentence cmd =
     (case cmd of OpenBrowser \<Rightarrow> ''Opening browser.''
      | SystemInfo \<Rightarrow> ''Displaying system information.'')"

definition failure_line :: "command \<Rightarrow> string" where
  "failure_line cmd =
     (case cmd of OpenBrowser \<Rightarrow> ''Error opening browser''
      | SystemInfo \<Rightarrow> ''Error retrieving system info'')"

text \<open>The events of the chat path: the model is asked, then its sentence is spoken.\<close>

definition chat_events :: "string \<Rightarrow> state \<Rightarrow> reply \<Rightarrow> event list" where
  "chat_events u st r =
     snd (generate_llm_response u st r) @ [Speak (fst (generate_llm_response u st r))]"

text \<open>The utterance \<open>set it to N\<close>.\<close>

definition set_it_to :: "string \<Rightarrow> string" where
  "set_it_to N = ''set it to '' @ N"

text \<open>A turn in which \<open>u\<close> is heard, on a platform where launching works.\<close>

definition hears :: "string \<Rightarrow> turn_input" where
  "hears u = \<lparr>heard = u, platform = Posix, launch_result = Returned True,
              chat_reply = ReplyObj (Some (PyStr ''Plotting a course now. Stand by.''))\<rparr>"

section \<open>Facts about the patterns\<close>

text \<open>
  What group 4 captures is a numeral that \<open>float\<close> accepts, and group 5 is never the empty
  string, so its truth value tells whether it took part in the match.
\<close>

lemma not_digit_dot: "\<not> is_digit CHR ''.''"
  by (simp add: is_digit_def)

lemma numeral_group_parses:
  assumes "numeral_group s = Some (n, r)"
  shows "py_float n \<noteq> None"
proof -
  define ip where "ip = takeWhile is_digit s"
  have ip: "ip \<noteq> []"
    using assms by (auto simp: ip_def numeral_group_def Let_def split: if_splits)
  have all_ip: "\<And>x. x \<in> set ip \<Longrightarrow> is_digit x"
    by (auto simp: ip_def dest: set_takeWhileD)
  consider (plain) "n = ip"
    | (frac) f t where "is_digit f" "n = ip @ CHR ''.'' # takeWhile is_digit (f # t)"
    using assms by (auto simp: ip_def numeral_group_def Let_def split: if_splits list.splits)
  then show ?thesis
  proof cases
    case plain
    have tk: "takeWhile is_digit ip = ip" and dr: "dropWhile is_digit ip = []"
      using all_ip by simp_all
    show ?thesis unfolding plain py_float_def Let_def tk dr using ip by simp
  next
    case frac
    define fs where "fs = takeWhile is_digit (f # t)"
    have n: "n = ip @ CHR ''.'' # fs" using frac(2) by (simp add: fs_def)
    have tk: "takeWhile is_digit n = ip"
      using all_ip not_digit_dot by (simp add: n takeWhile_append2)
    have dr: "dropWhile is_digit n = CHR ''.'' # fs"
      using all_ip not_digit_dot by (simp add: n dropWhile_append2)
    have fs: "fs \<noteq> []" "list_all is_digit fs"
      using frac(1) by (auto simp: fs_def list_all_iff dest: set_takeWhileD)
    show ?thesis unfolding py_float_def Let_def tk dr using ip fs by simp
  qed
qed

lemma percent_group_truthy: "truthy (percent_group s) \<longleftrightarrow> percent_group s \<noteq> None"
  by (auto simp: percent_group_def truthy_def Let_def)

lemma match_full_shape:
  "match_full s = Some (p, n, pct)
    \<Longrightarrow> \<exists>s7 s8. numeral_group s7 = Some (n, s8) \<and> pct = percent_group s8"
  by (auto simp: match_full_def split: Option.bind_splits prod.splits)

lemma match_it_shape:
  "match_it s = Some (n, pct)
    \<Longrightarrow> \<exists>s6 s7. numeral_group s6 = Some (n, s7) \<and> pct = percent_group s7"
  by (auto simp: match_it_def split: Option.bind_splits prod.splits)

lemma re_search_found: "re_search m s = Some r \<Longrightarrow> \<exists>t. m t = Some r"
  by (induction s) (auto split: option.splits)


lemma search_full_groups:
  assumes "re_search match_full u = Some (p, n, pct)"
  shows "(\<exists>x. py_float n = Some x) \<and> (truthy pct \<longleftrightarrow> pct \<noteq> None)"
proof -
  obtain t where "match_full t = Some (p, n, pct)"
    using re_search_found [OF assms] by blast
  then obtain s7 s8 where "numeral_group s7 = Some (n, s8)" "pct = percent_group s8"
    using match_full_shape by blast
  then show ?thesis
    using numeral_group_parses percent_group_truthy by auto
qed

lemma search_it_groups:
  assumes "re_search match_it u = Some (n, pct)"
  shows "(\<exists>x. py_float n = Some x) \<and> (truthy pct \<longleftrightarrow> pct \<noteq> None)"
proof -
  obtain t where "match_it t = Some (n, pct)"
    using re_search_found [OF assms] by blast
  then obtain s6 s7 where "numeral_group s6 = Some (n, s7)" "pct = percent_group s7"
    using match_it_shape by blast
  then show ?thesis
    using numeral_group_parses percent_group_truthy by auto
qed

section \<open>Facts about clamping and adjusting\<close>

lemma clamp_code_eq: "py_max (Finite 0) (py_min x (Finite 1)) = clamp_unit x"
  by (cases x) (auto simp: py_max_def py_min_def clamp_unit_def)

lemma in_unit_clamp: "in_unit (clamp_unit x)"
  by (cases x) (auto simp: clamp_unit_def in_unit_def)

lemma adjust_named_None:
  "re_search match_full u = None \<Longrightarrow> adjust_named u st = None"
  by (simp add: adjust_named_def)

lemma adjust_named_Some:
  assumes "re_search match_full u = Some (p, n, pct)"
  shows "\<exists>x. py_float n = Some x
           \<and> adjust_named u st
               = Some (confirmation p (normalise x (pct \<noteq> None)),
                       store p (normalise x (pct \<noteq> None)) st)"
proof -
  from search_full_groups [OF assms] obtain x
    where x: "py_float n = Some x" and t: "truthy pct \<longleftrightarrow> pct \<noteq> None" by blast
  have "adjust_named u st
          = Some (confirmation p (normalise x (pct \<noteq> None)),
                  store p (normalise x (pct \<noteq> None)) st)"
    by (cases p)
      (simp_all add: adjust_named_def assms x t clamp_code_eq normalise_def confirmation_def
        store_def param_name_def Let_def)
  with x show ?thesis by blast
qed

lemma adjust_pending_None:
  "re_search match_it u = None \<or> pending_param st = None \<Longrightarrow> adjust_pending u st = None"
  by (auto simp: adjust_pending_def split: option.splits)

lemma adjust_pending_Some:
  assumes "re_search match_it u = Some (n, pct)" and "pending_param st = Some p"
  shows "\<exists>x. py_float n = Some x
           \<and> adjust_pending u st
               = Some (confirmation p (normalise x (pct \<noteq> None)),
                       store p (normalise x (pct \<noteq> None)) st)"
proof -
  from search_it_groups [OF assms(1)] obtain x
    where x: "py_float n = Some x" and t: "truthy pct \<longleftrightarrow> pct \<noteq> None" by blast
  have "adjust_pending u st
          = Some (confirmation p (normalise x (pct \<noteq> None)),
                  store p (normalise x (pct \<noteq> None)) st)"
    by (cases p)
      (simp_all add: adjust_pending_def assms x t clamp_code_eq normalise_def confirmation_def
        store_def param_name_def Let_def)
  with x show ?thesis by blast
qed

lemma no_adjustment_result:
  "no_adjustment u st \<Longrightarrow> adjust_personality u st = (None, st)"
  by (simp add: no_adjustment_def adjust_personality_def adjust_named_None adjust_pending_None)

lemma confirmation_not_empty: "confirmation p v \<noteq> []"
  by (simp add: confirmation_def)

lemma in_unit_normalise: "in_unit (normalise x b)"
  by (simp add: normalise_def in_unit_clamp)

text \<open>The state after \<open>adjust_personality\<close>, whichever way it goes.\<close>

lemma adjust_personality_cases:
  "adjust_personality u st = (None, st)
   \<or> (\<exists>p v. in_unit v \<and> adjust_personality u st = (Some (confirmation p v), store p v st))"
proof (cases "re_search match_full u")
  case (Some m)
  obtain p n pct where m: "m = (p, n, pct)" by (cases m)
  from adjust_named_Some [of u p n pct st] Some m obtain x where
    "adjust_named u st = Some (confirmation p (normalise x (pct \<noteq> None)),
                               store p (normalise x (pct \<noteq> None)) st)" by blast
  then show ?thesis
    using in_unit_normalise by (auto simp: adjust_personality_def)
next
  case None
  note full = adjust_named_None [OF None, of st]
  show ?thesis
  proof (cases "re_search match_it u")
    case None
    then show ?thesis by (simp add: adjust_personality_def full adjust_pending_None)
  next
    case (Some m)
    obtain n pct where m: "m = (n, pct)" by (cases m)
    show ?thesis
    proof (cases "pending_param st")
      case None
      then show ?thesis by (simp add: adjust_personality_def full adjust_pending_None)
    next
      case (Some p)
      from adjust_pending_Some [of u n pct st p] \<open>re_search match_it u = Some m\<close> m Some
      obtain x where
        "adjust_pending u st = Some (confirmation p (normalise x (pct \<noteq> None)),
                                     store p (normalise x (pct \<noteq> None)) st)" by blast
      then show ?thesis
        using in_unit_normalise by (auto simp: adjust_personality_def full)
    qed
  qed
qed

lemma level_store: "level p (store p v st) = v"
  by (cases p) (simp_all add: level_def store_def)

lemma level_store_other: "level (other p) (store p v st) = level (other p) st"
  by (cases p) (simp_all add: level_def store_def other_def)

lemma pending_store: "pending_param (store p v st) = None"
  by (cases p) (simp_all add: store_def)

lemma store_store: "store p v (store p v st) = store p v st"
  by (cases p) (simp_all add: store_def)

lemma adjust_personality_named:
  assumes "re_search match_full u = Some (p, n, pct)"
  shows "\<exists>x. py_float n = Some x
           \<and> adjust_personality u st
               = (Some (confirmation p (normalise x (pct \<noteq> None))),
                  store p (normalise x (pct \<noteq> None)) st)"
  using adjust_named_Some [OF assms, of st] by (auto simp: adjust_personality_def)

lemma adjust_personality_pending:
  assumes "re_search match_full u = None"
    and "re_search match_it u = Some (n, pct)" and "pending_param st = Some p"
  shows "\<exists>x. py_float n = Some x
           \<and> adjust_personality u st
               = (Some (confirmation p (normalise x (pct \<noteq> None))),
                  store p (normalise x (pct \<noteq> None)) st)"
  using adjust_pending_Some [OF assms(2,3)] adjust_named_None [OF assms(1), of st]
  by (auto simp: adjust_personality_def)

section \<open>Facts about a turn\<close>

text \<open>The state after a turn, rule by rule.\<close>

lemma turn_state:
  "fst (turn inp st)
     = (if heard inp = [] then st
        else case queried (heard inp) of
               Some p \<Rightarrow> st\<lparr>pending_param := Some p\<rparr>
             | None \<Rightarrow> snd (adjust_personality (heard inp) st))"
  by (auto simp: turn_def queried_def Let_def split: prod.splits bool.splits)

lemma turn_state_cases:
  "fst (turn inp st) = st
   \<or> (\<exists>p. fst (turn inp st) = st\<lparr>pending_param := Some p\<rparr>)
   \<or> (\<exists>p v. in_unit v \<and> fst (turn inp st) = store p v st)"
proof (cases "heard inp = [] \<or> queried (heard inp) \<noteq> None")
  case True
  then show ?thesis by (auto simp: turn_state)
next
  case False
  then have eq: "fst (turn inp st) = snd (adjust_personality (heard inp) st)"
    by (auto simp: turn_state)
  from adjust_personality_cases [of "heard inp" st] show ?thesis
  proof
    assume "adjust_personality (heard inp) st = (None, st)"
    with eq show ?thesis by simp
  next
    assume "\<exists>p v. in_unit v
              \<and> adjust_personality (heard inp) st = (Some (confirmation p v), store p v st)"
    then obtain p v where "in_unit v"
      and "adjust_personality (heard inp) st = (Some (confirmation p v), store p v st)"
      by blast
    with eq have "in_unit v \<and> fst (turn inp st) = store p v st" by simp
    then show ?thesis by blast
  qed
qed

lemma contains_Nil: "contains (c # cs) [] = False"
  by simp

lemma queried_Nil: "queried [] = None"
  by (simp add: queried_def is_query_def)

lemma is_exit_Nil: "\<not> is_exit []"
  by (simp add: is_exit_def)

lemma command_of_Nil: "command_of [] = None"
  by (simp add: command_of_def)

lemma search_full_Nil: "re_search match_full [] = None"
  by (simp add: match_full_def verb_group_def)

lemma search_it_Nil: "re_search match_it [] = None"
  by (simp add: match_it_def verb_group_def)

lemma turn_query:
  assumes "queried (heard inp) = Some p"
  shows "turn inp st = (st\<lparr>pending_param := Some p\<rparr>, [Speak (report p (level p st))], True)"
proof -
  have "heard inp \<noteq> []" using assms queried_Nil by auto
  then show ?thesis
    using assms
    by (cases p)
      (auto simp: turn_def queried_def report_def level_def param_name_def Let_def
        split: if_splits)
qed

lemma turn_adjusted:
  assumes "heard inp \<noteq> []" and "queried (heard inp) = None"
    and "adjust_personality (heard inp) st = (Some c, st')" and "c \<noteq> []"
  shows "turn inp st = (st', [Speak c], True)"
  using assms by (auto simp: turn_def queried_def truthy_def Let_def split: if_splits)

lemma execute_command_eq:
  "execute_command u os outcome
     = (case command_of u of
          None \<Rightarrow> (False, [])
        | Some cmd \<Rightarrow> run_command cmd (done_sentence cmd) (failure_line cmd) os outcome)"
  by (simp add: execute_command_def command_of_def done_sentence_def failure_line_def)

lemma turn_passed:
  assumes "heard inp \<noteq> []" and "queried (heard inp) = None"
    and "adjust_personality (heard inp) st = (None, st')"
  shows "turn inp st
           = (if is_exit (heard inp) then (st', [Speak ''Shutting down. Goodbye.''], False)
              else case execute_command (heard inp) (platform inp) (launch_result inp) of
                     (True, evs) \<Rightarrow> (st', evs, True)
                   | (False, evs) \<Rightarrow>
                       (st', evs @ chat_events (heard inp) st' (chat_reply inp), True))"
  using assms
  by (auto simp: turn_def queried_def truthy_def chat_events_def Let_def
      split: if_splits prod.splits bool.splits)

lemma heard_hears: "heard (hears u) = u"
  by (simp add: hears_def)

lemma turn_named:
  assumes "queried (heard inp) = None"
    and "re_search match_full (heard inp) = Some (p, n, pct)"
  shows "\<exists>x. py_float n = Some x
           \<and> turn inp st
               = (store p (normalise x (pct \<noteq> None)) st,
                  [Speak (confirmation p (normalise x (pct \<noteq> None)))], True)"
proof -
  have ne: "heard inp \<noteq> []" using assms(2) search_full_Nil by auto
  from adjust_personality_named [OF assms(2), of st] obtain x where
    x: "py_float n = Some x" and
    a: "adjust_personality (heard inp) st
          = (Some (confirmation p (normalise x (pct \<noteq> None))),
             store p (normalise x (pct \<noteq> None)) st)" by blast
  show ?thesis
    using x turn_adjusted [OF ne assms(1) a confirmation_not_empty] by blast
qed

lemma turn_pending:
  assumes "queried (heard inp) = None"
    and "re_search match_full (heard inp) = None"
    and "re_search match_it (heard inp) = Some (n, pct)"
    and "pending_param st = Some p"
  shows "\<exists>x. py_float n = Some x
           \<and> turn inp st
               = (store p (normalise x (pct \<noteq> None)) st,
                  [Speak (confirmation p (normalise x (pct \<noteq> None)))], True)"
proof -
  have ne: "heard inp \<noteq> []" using assms(3) search_it_Nil by auto
  from adjust_personality_pending [OF assms(2,3,4)] obtain x where
    x: "py_float n = Some x" and
    a: "adjust_personality (heard inp) st
          = (Some (confirmation p (normalise x (pct \<noteq> None))),
             store p (normalise x (pct \<noteq> None)) st)" by blast
  show ?thesis
    using x turn_adjusted [OF ne assms(1) a confirmation_not_empty] by blast
qed

lemma store_pending_update: "store p v (st\<lparr>pending_param := q\<rparr>) = store p v st"
  by (cases p) (simp_all add: store_def)

lemma level_pending_update: "level p (st\<lparr>pending_param := q\<rparr>) = level p st"
  by (cases p) (simp_all add: level_def)

lemma levels_in_range_store:
  "levels_in_range st \<Longrightarrow> in_unit v \<Longrightarrow> levels_in_range (store p v st)"
  by (cases p) (simp_all add: levels_in_range_def store_def)

lemma turn_keeps_range:
  assumes "levels_in_range st"
  shows "levels_in_range (fst (turn inp st))"
proof -
  have "levels_in_range (st\<lparr>pending_param := q\<rparr>)" for q
    using assms by (simp add: levels_in_range_def)
  then show ?thesis
    using turn_state_cases [of inp st] assms levels_in_range_store by auto
qed

lemma run_keeps_range: "levels_in_range st \<Longrightarrow> levels_in_range (fst (run inps st))"
proof (induction inps arbitrary: st)
  case Nil
  then show ?case by simp
next
  case (Cons inp inps)
  obtain st' evs going where t: "turn inp st = (st', evs, going)"
    by (cases "turn inp st")
  have r: "levels_in_range st'"
    using turn_keeps_range [OF Cons.prems, of inp] t by simp
  show ?case
  proof (cases going)
    case True
    obtain st'' evs' going' where n: "run inps st' = (st'', evs', going')"
      by (cases "run inps st'")
    show ?thesis using Cons.IH [OF r] t True n by simp
  next
    case False
    then show ?thesis using r t by simp
  qed
qed

lemma initial_in_range: "levels_in_range initial_state"
  by code_simp

section \<open>Normalisation of a named adjustment\<close>

lemma float_150: "py_float ''150'' = Some (Finite 150)"
  by code_simp

lemma normalise_150: "normalise (Finite 150) False = Finite 1"
  by code_simp

text \<open>
  Claim C1. Whenever \<open>pattern_full\<close> is found in the utterance, with \<open>N\<close> its numeral
  (group 4) and \<open>pct\<close> its percent indicator (group 5), \<open>float(N)\<close> succeeds, and the value
  that \<open>adjust_personality\<close> stores for the named parameter is \<open>float(N) / 100\<close> when the
  indicator is present or \<open>float(N) > 1\<close>, and \<open>float(N)\<close> otherwise, clamped to the interval
  from 0 to 1. In particular the numeral \<open>150\<close> without an indicator is stored as 1.
  In \<open>main\<close> the function is called on every utterance that no query rule takes, and
  the state it leaves is the state after the turn.
\<close>

theorem C1_named_adjustment_value:
  assumes "re_search match_full u = Some (p, N, pct)"
  shows "\<exists>x. py_float N = Some x
           \<and> level p (snd (adjust_personality u st))
               = clamp_unit (if pct \<noteq> None \<or> float_less (Finite 1) x then div_100 x else x)
           \<and> in_unit (level p (snd (adjust_personality u st)))
           \<and> (N = ''150'' \<and> pct = None
                \<longrightarrow> level p (snd (adjust_personality u st)) = Finite 1)
           \<and> (heard inp = u \<and> queried u = None
                \<longrightarrow> fst (turn inp st) = snd (adjust_personality u st))"
proof -
  from adjust_personality_named [OF assms, of st] obtain x where
    x: "py_float N = Some x" and
    a: "adjust_personality u st
          = (Some (confirmation p (normalise x (pct \<noteq> None))),
             store p (normalise x (pct \<noteq> None)) st)" by blast
  have stored: "level p (snd (adjust_personality u st)) = normalise x (pct \<noteq> None)"
    by (simp add: a level_store)
  have "N = ''150'' \<and> pct = None \<longrightarrow> level p (snd (adjust_personality u st)) = Finite 1"
    using x stored float_150 normalise_150 by auto
  moreover have "heard inp = u \<and> queried u = None
                  \<longrightarrow> fst (turn inp st) = snd (adjust_personality u st)"
    using assms search_full_Nil by (auto simp: turn_state)
  ultimately show ?thesis
    using x stored in_unit_normalise [of x "pct \<noteq> None"] by (simp add: normalise_def)
qed

theorem C1_witness:
  "re_search match_full ''set your honesty level to 150'' = Some (Honesty, ''150'', None)
   \<and> honesty_level (snd (adjust_personality ''set your honesty level to 150'' initial_state))
       = Finite 1"
proof -
  have m: "re_search match_full ''set your honesty level to 150'' = Some (Honesty, ''150'', None)"
    by code_simp
  from C1_named_adjustment_value [OF m, of initial_state]
  have "level Honesty (snd (adjust_personality ''set your honesty level to 150'' initial_state))
          = Finite 1"
    by blast
  then show ?thesis using m by (simp add: level_def)
qed

section \<open>The range invariant\<close>

text \<open>
  Claim C2. From the defaults 0.8 and 0.6 on, after any sequence of turns (so after each
  of them: a prefix of a session is a session) both levels lie between 0 and 1; and a
  turn of any kind, from a state where they do, ends in a state where they do.
\<close>

theorem C2_levels_stay_in_range:
  "levels_in_range (fst (main_loop inps))
   \<and> (levels_in_range st \<longrightarrow> levels_in_range (fst (turn inp st)))"
proof -
  obtain st' evs going where r: "run inps initial_state = (st', evs, going)"
    by (cases "run inps initial_state")
  then have "levels_in_range (fst (main_loop inps))"
    using run_keeps_range [OF initial_in_range, of inps] by (simp add: main_loop_def)
  then show ?thesis
    using turn_keeps_range by blast
qed

theorem C2_witness:
  "levels_in_range initial_state
   \<and> levels_in_range (fst (turn (hears ''set your honesty level to 150'') initial_state))"
  using C2_levels_stay_in_range [of "[]" initial_state "hears ''set your honesty level to 150''"]
    initial_in_range
  by blast

section \<open>The sentence made of the model's reply\<close>

lemma split_sentences_not_Nil: "split_sentences piece s \<noteq> []"
  by (induction piece s rule: split_sentences.induct) auto

lemma enforce_one_liner_terminated: "ends_with_terminator (enforce_one_liner s)"
proof -
  obtain first rest where f: "split_sentences [] s = first # rest"
    using split_sentences_not_Nil [of "[]" s] by (cases "split_sentences [] s") auto
  show ?thesis
    by (cases "ends_with_terminator (strip first)")
      (auto simp: enforce_one_liner_def f Let_def ends_with_terminator_def is_terminator_def)
qed

text \<open>
  Claim C3. The claim says that an empty content string ends in the fixed apology. The
  code does not do so: \<open>re.split\<close> of the empty string is the list of one empty piece, the
  full stop is appended to that piece, and the test \<open>if not llm_response\<close> that follows
  then never holds. For a reply whose \<open>message.content\<close> is the empty string the sentence
  returned is the bare full stop, which is not the apology.
\<close>

theorem C3_empty_content_gives_full_stop:
  "fst (generate_llm_response u st (ReplyObj (Some (PyStr '''')))) = ''.''
   \<and> fst (generate_llm_response u st (ReplyObj (Some (PyStr '''')))) \<noteq> apology"
proof -
  have e: "extract_content (ReplyObj (Some (PyStr ''''))) = Some ''''"
    by (simp add: extract_content_def strip_value_def strip_def)
  have o: "enforce_one_liner '''' = ''.''"
    by (simp add: enforce_one_liner_def strip_def ends_with_terminator_def)
  show ?thesis
    by (simp add: generate_llm_response_def e o apology_def)
qed

section \<open>Exit comes before the system commands\<close>

text \<open>
  Claim C4. An utterance that holds an exit word and asks for a system command, and that
  neither query rule nor adjustment rule takes, is an exit: the farewell is the only thing
  spoken, the loop stops there whatever would be heard next, and no process is launched.
\<close>

theorem C4_exit_before_system_command:
  assumes "is_exit (heard inp)" and "command_of (heard inp) \<noteq> None"
    and "queried (heard inp) = None" and "no_adjustment (heard inp) st"
  shows "turn inp st = (st, [Speak ''Shutting down. Goodbye.''], False)
         \<and> run (inp # rest) st = (st, [Speak ''Shutting down. Goodbye.''], False)
         \<and> Launch cmd \<notin> set (fst (snd (turn inp st)))"
proof -
  have ne: "heard inp \<noteq> []" using assms(1) is_exit_Nil by auto
  have t: "turn inp st = (st, [Speak ''Shutting down. Goodbye.''], False)"
    using turn_passed [OF ne assms(3) no_adjustment_result [OF assms(4)]] assms(1) by simp
  then show ?thesis by simp
qed

theorem C4_witness:
  "is_exit ''goodbye, open browser''
   \<and> command_of ''goodbye, open browser'' = Some OpenBrowser
   \<and> turn \<lparr>heard = ''goodbye, open browser'', platform = Posix,
            launch_result = Returned True, chat_reply = ChatRaises\<rparr> initial_state
       = (initial_state, [Speak ''Shutting down. Goodbye.''], False)"
proof -
  let ?inp = "\<lparr>heard = ''goodbye, open browser'', platform = Posix,
                launch_result = Returned True, chat_reply = ChatRaises\<rparr>"
  have a: "is_exit (heard ?inp)" by code_simp
  have b: "command_of (heard ?inp) = Some OpenBrowser" by code_simp
  have c: "queried (heard ?inp) = None" by code_simp
  have d: "no_adjustment (heard ?inp) initial_state" by code_simp
  have b': "command_of (heard ?inp) \<noteq> None" using b by simp
  from C4_exit_before_system_command [OF a b' c d] a b show ?thesis by simp
qed

section \<open>An empty transcription\<close>

text \<open>
  Claim C9. When \<open>listen()\<close> returns the empty string the turn does nothing: the state is
  the same, nothing is spoken, launched or asked, and the loop goes on with the next turn.
\<close>

theorem C9_empty_transcription_is_no_turn:
  "turn (inp\<lparr>heard := []\<rparr>) st = (st, [], True)
   \<and> run (inp\<lparr>heard := []\<rparr> # rest) st = run rest st"
  by (simp add: turn_def split: prod.splits)

section \<open>Utterances used as examples\<close>

lemma humor_45_full:
  "re_search match_full ''set your humor level to 45%'' = Some (Humor, ''45'', Some ''%'')"
  by code_simp

lemma humor_45_not_query: "queried ''set your humor level to 45%'' = None"
  by code_simp

lemma humor_45_sentence:
  "fst (adjust_personality ''set your humor level to 45%'' initial_state)
     = Some ''Adjusted my humor level to 45 percent.''"
  by code_simp

lemma humor_query: "queried ''what is my humor level'' = Some Humor"
  by code_simp

lemma set_it_30_not_query: "queried ''set it to 30'' = None"
  by code_simp

lemma set_it_30_full: "re_search match_full ''set it to 30'' = None"
  by code_simp

lemma set_it_30_it: "re_search match_it ''set it to 30'' = Some (''30'', None)"
  by code_simp

lemma set_it_30_no_exit: "\<not> is_exit ''set it to 30''"
  by code_simp

lemma set_it_30_no_command: "command_of ''set it to 30'' = None"
  by code_simp

lemma float_30: "py_float ''30'' = Some (Finite 30)"
  by code_simp

section \<open>A named adjustment said twice\<close>

text \<open>
  Claim C8. When \<open>pattern_full\<close> is found in the utterance, a second turn on the same
  utterance right after the first ends in the same state and speaks the same sentence as
  the first did; and when no query rule takes the utterance that sentence is the
  confirmation of the adjustment, the state being the one with the value stored.
\<close>

theorem C8_named_adjustment_idempotent:
  assumes "re_search match_full (heard inp) = Some (p, n, pct)"
    and "heard inp' = heard inp"
  shows "turn inp' (fst (turn inp st)) = turn inp st
         \<and> (queried (heard inp) = None
              \<longrightarrow> (\<exists>v. turn inp st = (store p v st, [Speak (confirmation p v)], True)))"
proof (cases "queried (heard inp)")
  case None
  from turn_named [OF None assms(1), of st] obtain x where
    x: "py_float n = Some x" and
    t: "turn inp st = (store p (normalise x (pct \<noteq> None)) st,
                       [Speak (confirmation p (normalise x (pct \<noteq> None)))], True)" by blast
  have None': "queried (heard inp') = None" using None assms(2) by simp
  have m': "re_search match_full (heard inp') = Some (p, n, pct)" using assms by simp
  from turn_named [OF None' m', of "store p (normalise x (pct \<noteq> None)) st"] x
  have "turn inp' (store p (normalise x (pct \<noteq> None)) st)
          = (store p (normalise x (pct \<noteq> None)) st,
             [Speak (confirmation p (normalise x (pct \<noteq> None)))], True)"
    by (simp add: store_store)
  then show ?thesis using t by auto
next
  case (Some q)
  have q': "queried (heard inp') = Some q" using Some assms(2) by simp
  have t: "turn inp st = (st\<lparr>pending_param := Some q\<rparr>, [Speak (report q (level q st))], True)"
    by (rule turn_query [OF Some])
  have "turn inp' (st\<lparr>pending_param := Some q\<rparr>)
          = (st\<lparr>pending_param := Some q\<rparr>, [Speak (report q (level q st))], True)"
    using turn_query [OF q', of "st\<lparr>pending_param := Some q\<rparr>"]
    by (simp add: level_pending_update)
  then show ?thesis using t Some by simp
qed

theorem C8_witness:
  "re_search match_full ''set your humor level to 45%'' = Some (Humor, ''45'', Some ''%'')
   \<and> turn (hears ''set your humor level to 45%'')
        (fst (turn (hears ''set your humor level to 45%'') initial_state))
       = turn (hears ''set your humor level to 45%'') initial_state
   \<and> fst (snd (turn (hears ''set your humor level to 45%'') initial_state))
       = [Speak ''Adjusted my humor level to 45 percent.'']"
proof -
  let ?i = "hears ''set your humor level to 45%''"
  have m: "re_search match_full (heard ?i) = Some (Humor, ''45'', Some ''%'')"
    by (simp only: heard_hears humor_45_full)
  have q: "queried (heard ?i) = None"
    by (simp only: heard_hears humor_45_not_query)
  from C8_named_adjustment_idempotent [OF m refl, of initial_state] q
  obtain v where
    same: "turn ?i (fst (turn ?i initial_state)) = turn ?i initial_state" and
    t: "turn ?i initial_state = (store Humor v initial_state, [Speak (confirmation Humor v)], True)"
    by blast
  have ne: "heard ?i \<noteq> []" by (simp add: heard_hears)
  obtain c st' where a: "adjust_personality (heard ?i) initial_state = (Some c, st')"
    and c: "c = ''Adjusted my humor level to 45 percent.''"
    using humor_45_sentence by (cases "adjust_personality (heard ?i) initial_state")
      (auto simp: heard_hears)
  have "turn ?i initial_state = (st', [Speak c], True)"
    by (rule turn_adjusted [OF ne q a]) (simp add: c)
  then have "fst (snd (turn ?i initial_state)) = [Speak ''Adjusted my humor level to 45 percent.'']"
    by (simp add: c)
  then show ?thesis using same humor_45_full by blast
qed

section \<open>What a turn leaves alone\<close>

text \<open>
  Claim C10. A query turn changes neither level. A turn that adjusts a named parameter,
  and a turn that adjusts the pending parameter, leave the level of the other parameter
  as it was.
\<close>

theorem C10_frame:
  "(queried (heard inp) \<noteq> None
      \<longrightarrow> honesty_level (fst (turn inp st)) = honesty_level st
          \<and> humor_level (fst (turn inp st)) = humor_level st)
   \<and> (queried (heard inp) = None \<and> re_search match_full (heard inp) = Some (p, n, pct)
      \<longrightarrow> level (other p) (fst (turn inp st)) = level (other p) st)
   \<and> (queried (heard inp) = None \<and> re_search match_full (heard inp) = None
        \<and> re_search match_it (heard inp) = Some (n', pct') \<and> pending_param st = Some p'
      \<longrightarrow> level (other p') (fst (turn inp st)) = level (other p') st)"
proof (intro conjI impI)
  assume "queried (heard inp) \<noteq> None"
  then obtain q where q: "queried (heard inp) = Some q" by blast
  have t: "fst (turn inp st) = st\<lparr>pending_param := Some q\<rparr>"
    using turn_query [OF q, of st] by simp
  show "honesty_level (fst (turn inp st)) = honesty_level st" by (simp add: t)
  show "humor_level (fst (turn inp st)) = humor_level st" by (simp add: t)
next
  assume a: "queried (heard inp) = None \<and> re_search match_full (heard inp) = Some (p, n, pct)"
  then have ne: "heard inp \<noteq> []" using search_full_Nil by auto
  from adjust_personality_named [of "heard inp" p n pct st] a obtain x where
    "adjust_personality (heard inp) st
       = (Some (confirmation p (normalise x (pct \<noteq> None))),
          store p (normalise x (pct \<noteq> None)) st)" by auto
  then have "fst (turn inp st) = store p (normalise x (pct \<noteq> None)) st"
    using a ne by (simp add: turn_state)
  then show "level (other p) (fst (turn inp st)) = level (other p) st"
    by (simp add: level_store_other)
next
  assume a: "queried (heard inp) = None \<and> re_search match_full (heard inp) = None
             \<and> re_search match_it (heard inp) = Some (n', pct') \<and> pending_param st = Some p'"
  then have ne: "heard inp \<noteq> []" using search_it_Nil by auto
  from adjust_personality_pending [of "heard inp" n' pct' st p'] a obtain x where
    "adjust_personality (heard inp) st
       = (Some (confirmation p' (normalise x (pct' \<noteq> None))),
          store p' (normalise x (pct' \<noteq> None)) st)" by auto
  then have "fst (turn inp st) = store p' (normalise x (pct' \<noteq> None)) st"
    using a ne by (simp add: turn_state)
  then show "level (other p') (fst (turn inp st)) = level (other p') st"
    by (simp add: level_store_other)
qed


theorem C10_witness:
  "queried ''what is my humor level'' = Some Humor
   \<and> honesty_level (fst (turn (hears ''what is my humor level'') initial_state))
       = honesty_level initial_state
   \<and> humor_level (fst (turn (hears ''what is my humor level'') initial_state))
       = humor_level initial_state
   \<and> re_search match_full ''set your humor level to 45%'' = Some (Humor, ''45'', Some ''%'')
   \<and> honesty_level (fst (turn (hears ''set your humor level to 45%'') initial_state))
       = honesty_level initial_state
   \<and> re_search match_it ''set it to 30'' = Some (''30'', None)
   \<and> humor_level (fst (turn (hears ''set it to 30'')
                          (initial_state\<lparr>pending_param := Some Honesty\<rparr>)))
       = humor_level initial_state"
proof -
  let ?st = "initial_state\<lparr>pending_param := Some Honesty\<rparr>"
  have a: "queried (heard (hears ''what is my humor level'')) \<noteq> None"
    by (simp only: heard_hears humor_query) simp
  have b: "queried (heard (hears ''set your humor level to 45%'')) = None
           \<and> re_search match_full (heard (hears ''set your humor level to 45%''))
               = Some (Humor, ''45'', Some ''%'')"
    by (simp only: heard_hears humor_45_not_query humor_45_full)
  have c: "queried (heard (hears ''set it to 30'')) = None
           \<and> re_search match_full (heard (hears ''set it to 30'')) = None
           \<and> re_search match_it (heard (hears ''set it to 30'')) = Some (''30'', None)
           \<and> pending_param ?st = Some Honesty"
    by (simp only: heard_hears set_it_30_not_query set_it_30_full set_it_30_it) simp
  have r1: "honesty_level (fst (turn (hears ''what is my humor level'') initial_state))
             = honesty_level initial_state
           \<and> humor_level (fst (turn (hears ''what is my humor level'') initial_state))
             = humor_level initial_state"
    using C10_frame [where inp = "hears ''what is my humor level''" and st = initial_state] a
    by blast
  have r2: "level (other Humor) (fst (turn (hears ''set your humor level to 45%'') initial_state))
             = level (other Humor) initial_state"
    using C10_frame [where inp = "hears ''set your humor level to 45%''" and st = initial_state
        and p = Humor and n = "''45''" and pct = "Some ''%''"] b
    by blast
  have r3: "level (other Honesty) (fst (turn (hears ''set it to 30'') ?st))
             = level (other Honesty) ?st"
    using C10_frame [where inp = "hears ''set it to 30''" and st = ?st
        and p' = Honesty and n' = "''30''" and pct' = None] c
    by blast
  have r2h: "honesty_level (fst (turn (hears ''set your humor level to 45%'') initial_state))
             = honesty_level initial_state"
    using r2 by (simp add: level_def other_def)
  have r3h: "humor_level (fst (turn (hears ''set it to 30'') ?st)) = humor_level initial_state"
    using r3 by (simp add: level_def other_def)
  show ?thesis
    using r1 r2h r3h humor_query humor_45_full set_it_30_it by blast
qed

section \<open>The utterance \<open>set it to N\<close>\<close>

text \<open>
  For a numeral \<open>N\<close> made of digits, the utterance \<open>set it to N\<close> is taken by no query
  rule and not by \<open>pattern_full\<close>; \<open>pattern_it\<close> is found in it with \<open>N\<close> as its numeral and
  no percent indicator; and it holds no exit word and asks for no system command. The
  reason for all the absences is the letters: the utterance is written with
  \<open>s\<close>, \<open>e\<close>, \<open>t\<close>, \<open>i\<close>, \<open>o\<close>, the space and the digits only.
\<close>

lemma strip_prefix_Some: "strip_prefix p s = Some r \<Longrightarrow> s = p @ r"
  by (induction p s rule: strip_prefix.induct) (auto split: if_splits)

lemma contains_set: "contains needle u \<Longrightarrow> set needle \<subseteq> set u"
proof (induction u)
  case Nil
  then show ?case by simp
next
  case (Cons c cs)
  show ?case
  proof (cases "strip_prefix needle (c # cs)")
    case None
    then show ?thesis using Cons by auto
  next
    case (Some r)
    then show ?thesis using strip_prefix_Some [OF Some] by auto
  qed
qed

lemma re_search_within:
  "re_search m u = Some r \<Longrightarrow> \<exists>t. m t = Some r \<and> set t \<subseteq> set u"
  by (induction u) (auto split: option.splits)

lemma spaces1_within: "spaces1 s = Some r \<Longrightarrow> set r \<subseteq> set s"
  by (auto simp: spaces1_def split: if_splits dest: set_dropWhileD)

lemma verb_group_within: "verb_group s = Some r \<Longrightarrow> set r \<subseteq> set s"
  by (auto simp: verb_group_def split: option.splits dest!: strip_prefix_Some)

lemma optional_your_within:
  assumes "optional_your s = Some r"
  shows "set r \<subseteq> set s"
proof (cases "strip_prefix ''your'' s")
  case None
  then show ?thesis using assms by (simp add: optional_your_def)
next
  case (Some t)
  then have "spaces1 t = Some r" using assms by (simp add: optional_your_def)
  then have "set r \<subseteq> set t" by (rule spaces1_within)
  moreover have "set t \<subseteq> set s" using strip_prefix_Some [OF Some] by auto
  ultimately show ?thesis by blast
qed

lemma param_group_h: "param_group s = Some r \<Longrightarrow> CHR ''h'' \<in> set s"
  by (auto simp: param_group_def split: option.splits dest!: strip_prefix_Some)

lemma match_full_h:
  assumes "match_full t = Some r"
  shows "CHR ''h'' \<in> set t"
proof -
  from assms obtain s1 s2 s3 where
    "verb_group t = Some s1" "spaces1 s1 = Some s2" "optional_your s2 = Some s3"
    "param_group s3 \<noteq> None"
    by (auto simp: match_full_def split: Option.bind_splits)
  then show ?thesis
    using verb_group_within spaces1_within optional_your_within param_group_h by blast
qed

lemma digit_not_space: "is_digit c \<Longrightarrow> \<not> is_space c"
  by (auto simp: is_digit_def is_space_def)

lemma set_it_to_digits:
  assumes "ds \<noteq> []" and "list_all is_digit ds"
  shows "queried (set_it_to ds) = None"
    and "re_search match_full (set_it_to ds) = None"
    and "re_search match_it (set_it_to ds) = Some (ds, None)"
    and "\<not> is_exit (set_it_to ds)"
    and "command_of (set_it_to ds) = None"
proof -
  have "set ds \<subseteq> set ''0123456789''"
    using assms(2) unfolding list_all_iff is_digit_def by blast
  moreover have "set ''0123456789'' \<subseteq> set ''set io0123456789''"
    by simp
  moreover have "set ''set it to '' \<subseteq> set ''set io0123456789''"
    by simp
  ultimately have chars: "set (set_it_to ds) \<subseteq> set ''set io0123456789''"
    unfolding set_it_to_def set_append by blast
  have absent: "\<not> contains needle (set_it_to ds)"
    if "\<not> set needle \<subseteq> set ''set io0123456789''" for needle
    using contains_set [of needle "set_it_to ds"] chars that by blast
  have what: "\<not> contains ''what'' (set_it_to ds)"
    by (rule absent) simp
  have exits: "\<not> contains ''exit'' (set_it_to ds)" "\<not> contains ''shut down'' (set_it_to ds)"
    "\<not> contains ''goodbye'' (set_it_to ds)"
    by (rule absent, simp)+
  have commands: "\<not> contains ''open browser'' (set_it_to ds)"
    "\<not> contains ''system info'' (set_it_to ds)"
    by (rule absent, simp)+
  show "queried (set_it_to ds) = None"
    using what by (simp add: queried_def is_query_def)
  show "\<not> is_exit (set_it_to ds)"
    using exits by (simp add: is_exit_def)
  show "command_of (set_it_to ds) = None"
    using commands by (simp add: command_of_def)
  show "re_search match_full (set_it_to ds) = None"
  proof (rule ccontr)
    assume "re_search match_full (set_it_to ds) \<noteq> None"
    then obtain r t where "match_full t = Some r" "set t \<subseteq> set (set_it_to ds)"
      using re_search_within by fastforce
    then have "CHR ''h'' \<in> set ''set io0123456789''"
      using match_full_h chars by blast
    then show False by simp
  qed
  obtain d ds' where ds: "ds = d # ds'" using assms(1) by (cases ds) auto
  have d: "is_digit d" using assms(2) by (simp add: ds)
  have nd: "\<not> is_space d" using d by (rule digit_not_space)
  have all: "\<And>x. x \<in> set ds \<Longrightarrow> is_digit x"
    using assms(2) by (simp add: list_all_iff)
  have tk: "takeWhile is_digit ds = ds" and dr: "dropWhile is_digit ds = []"
    using all by simp_all
  have ng: "numeral_group ds = Some (ds, [])"
    unfolding numeral_group_def Let_def tk dr using assms(1) by simp
  have space: "is_space CHR '' ''" and letters: "\<not> is_space CHR ''i''" "\<not> is_space CHR ''t''"
    by (simp_all add: is_space_def)
  define r1 where "r1 = '' it to '' @ ds"
  define r2 where "r2 = ''it to '' @ ds"
  define r3 where "r3 = '' to '' @ ds"
  define r4 where "r4 = ''to '' @ ds"
  define r5 where "r5 = '' '' @ ds"
  have v: "verb_group (set_it_to ds) = Some r1"
    by (simp add: verb_group_def set_it_to_def r1_def)
  have s2: "spaces1 r1 = Some r2"
    using space letters by (simp add: spaces1_def r1_def r2_def)
  have s3: "strip_prefix ''it'' r2 = Some r3"
    by (simp add: r2_def r3_def)
  have s4: "spaces1 r3 = Some r4"
    using space letters by (simp add: spaces1_def r3_def r4_def)
  have s5: "strip_prefix ''to'' r4 = Some r5"
    by (simp add: r4_def r5_def)
  have s6: "spaces1 r5 = Some ds"
    using space nd by (simp add: spaces1_def r5_def ds)
  have pg: "percent_group [] = None"
    by (simp add: percent_group_def)
  have m: "match_it (set_it_to ds) = Some (ds, None)"
    by (simp add: match_it_def v s2 s3 s4 s5 s6 ng pg)
  have "set_it_to ds = CHR ''s'' # ''et it to '' @ ds"
    by (simp add: set_it_to_def)
  then show "re_search match_it (set_it_to ds) = Some (ds, None)"
    using m by (metis option.simps(5) re_search.simps(2))
qed

section \<open>Query, then \<open>set it to\<close>, twice\<close>

text \<open>
  Claim C5. Take three turns in a row from any state. The first is a query for the
  parameter \<open>p\<close>: afterwards \<open>p\<close> is pending. The second is an utterance in which only
  \<open>pattern_it\<close> is found, with numeral \<open>N\<close>: the normalised \<open>float(N)\<close> is stored for \<open>p\<close> and
  confirmed, the other level is the one of the start, and nothing is pending any more.
  The third is again an utterance in which only \<open>pattern_it\<close> is found (and no exit word
  or system command): it adjusts nothing, the state stays, and the utterance goes to the
  language model, whose sentence is spoken. By \<open>set_it_to_digits\<close> the utterances
  \<open>set it to N\<close>, with \<open>N\<close> any string of digits, are of this kind.
\<close>

theorem C5_query_then_set_it:
  assumes q1: "queried (heard i1) = Some p"
    and t1: "turn i1 s0 = (s1, e1, g1)"
    and q2: "queried (heard i2) = None"
    and f2: "re_search match_full (heard i2) = None"
    and m2: "re_search match_it (heard i2) = Some (N, pct)"
    and t2: "turn i2 s1 = (s2, e2, g2)"
    and q3: "queried (heard i3) = None"
    and f3: "re_search match_full (heard i3) = None"
    and m3: "re_search match_it (heard i3) \<noteq> None"
    and x3: "\<not> is_exit (heard i3)"
    and c3: "command_of (heard i3) = None"
    and t3: "turn i3 s2 = (s3, e3, g3)"
  shows "pending_param s1 = Some p
         \<and> (\<exists>x. py_float N = Some x
                \<and> level p s2 = normalise x (pct \<noteq> None)
                \<and> e2 = [Speak (confirmation p (normalise x (pct \<noteq> None)))])
         \<and> level (other p) s2 = level (other p) s0
         \<and> pending_param s2 = None
         \<and> s3 = s2
         \<and> e3 = chat_events (heard i3) s2 (chat_reply i3)
         \<and> g1 \<and> g2 \<and> g3"
proof -
  have s1: "s1 = s0\<lparr>pending_param := Some p\<rparr>" and g1: g1
    using turn_query [OF q1, of s0] t1 by simp_all
  have p1: "pending_param s1 = Some p" by (simp add: s1)
  from turn_pending [OF q2 f2 m2 p1] t2 obtain x where
    x: "py_float N = Some x" and
    s2: "s2 = store p (normalise x (pct \<noteq> None)) s1" and
    e2: "e2 = [Speak (confirmation p (normalise x (pct \<noteq> None)))]" and g2: g2
    by auto
  have l2: "level p s2 = normalise x (pct \<noteq> None)" by (simp add: s2 level_store)
  have o2: "level (other p) s2 = level (other p) s0"
    by (simp add: s2 s1 level_store_other level_pending_update)
  have p2: "pending_param s2 = None" by (simp add: s2 pending_store)
  have ne3: "heard i3 \<noteq> []" using m3 search_it_Nil by auto
  have n3: "no_adjustment (heard i3) s2" by (simp add: no_adjustment_def f3 p2)
  have "turn i3 s2 = (s2, chat_events (heard i3) s2 (chat_reply i3), True)"
    using turn_passed [OF ne3 q3 no_adjustment_result [OF n3]] x3 c3
    by (simp add: execute_command_eq)
  then have third: "s3 = s2 \<and> e3 = chat_events (heard i3) s2 (chat_reply i3) \<and> g3"
    using t3 by simp
  show ?thesis using p1 x l2 e2 o2 p2 third g1 g2 by blast
qed


theorem C5_witness:
  "queried ''what is my humor level'' = Some Humor
   \<and> re_search match_it ''set it to 30'' = Some (''30'', None)
   \<and> pending_param (fst (turn (hears ''what is my humor level'') initial_state)) = Some Humor
   \<and> humor_level (fst (turn (hears ''set it to 30'')
                          (fst (turn (hears ''what is my humor level'') initial_state))))
       = normalise (Finite 30) False
   \<and> honesty_level (fst (turn (hears ''set it to 30'')
                            (fst (turn (hears ''what is my humor level'') initial_state))))
       = honesty_level initial_state
   \<and> pending_param (fst (turn (hears ''set it to 30'')
                            (fst (turn (hears ''what is my humor level'') initial_state))))
       = None
   \<and> fst (turn (hears ''set it to 30'')
             (fst (turn (hears ''set it to 30'')
                    (fst (turn (hears ''what is my humor level'') initial_state)))))
       = fst (turn (hears ''set it to 30'')
               (fst (turn (hears ''what is my humor level'') initial_state)))"
proof -
  let ?i1 = "hears ''what is my humor level''"
  let ?i2 = "hears ''set it to 30''"
  obtain s1 e1 g1 where t1: "turn ?i1 initial_state = (s1, e1, g1)"
    by (cases "turn ?i1 initial_state")
  obtain s2 e2 g2 where t2: "turn ?i2 s1 = (s2, e2, g2)"
    by (cases "turn ?i2 s1")
  obtain s3 e3 g3 where t3: "turn ?i2 s2 = (s3, e3, g3)"
    by (cases "turn ?i2 s2")
  have q1: "queried (heard ?i1) = Some Humor"
    by (simp only: heard_hears humor_query)
  have q2: "queried (heard ?i2) = None"
    by (simp only: heard_hears set_it_30_not_query)
  have f2: "re_search match_full (heard ?i2) = None"
    by (simp only: heard_hears set_it_30_full)
  have m2: "re_search match_it (heard ?i2) = Some (''30'', None)"
    by (simp only: heard_hears set_it_30_it)
  have m3: "re_search match_it (heard ?i2) \<noteq> None"
    unfolding m2 by blast
  have x3: "\<not> is_exit (heard ?i2)"
    unfolding heard_hears by (rule set_it_30_no_exit)
  have c3: "command_of (heard ?i2) = None"
    by (simp only: heard_hears set_it_30_no_command)
  from C5_query_then_set_it [OF q1 t1 q2 f2 m2 t2 q2 f2 m3 x3 c3 t3]
  obtain x where
    p1: "pending_param s1 = Some Humor" and
    x: "py_float ''30'' = Some x" and
    l2: "level Humor s2 = normalise x False" and
    o2: "level (other Humor) s2 = level (other Humor) initial_state" and
    p2: "pending_param s2 = None" and
    s3: "s3 = s2"
    by auto
  have x30: "x = Finite 30" using x unfolding float_30 by blast
  have a: "humor_level s2 = normalise (Finite 30) False"
    using l2 x30 by (simp add: level_def)
  have b: "honesty_level s2 = honesty_level initial_state"
    using o2 by (simp add: level_def other_def)
  show ?thesis
    unfolding t1 t2 t3 fst_conv
    using humor_query set_it_30_it p1 a b p2 s3 by blast
qed

section \<open>A system command and its confirmation\<close>

lemma open_browser_not_query: "queried ''open browser'' = None"
  by code_simp

lemma open_browser_no_adjustment: "no_adjustment ''open browser'' initial_state"
  by code_simp

lemma open_browser_no_exit: "\<not> is_exit ''open browser''"
  by code_simp

lemma open_browser_command: "command_of ''open browser'' = Some OpenBrowser"
  by code_simp

text \<open>
  Claim C6, as stated, fails. On \<open>open browser\<close>, when \<open>subprocess.Popen\<close> raises, the
  \<open>except\<close> branch of \<open>execute_command\<close> logs the error and returns \<open>False\<close> without
  speaking: no confirmation is heard, and \<open>main\<close> hands the utterance to the language
  model, whose sentence is spoken instead.
\<close>

theorem C6_counterexample:
  "fst (snd (turn \<lparr>heard = ''open browser'', platform = Posix, launch_result = Raised,
                   chat_reply = ReplyObj (Some (PyStr ''Plotting a course now. Stand by.''))\<rparr>
              initial_state))
     = [Launch OpenBrowser, Log ''Error opening browser'',
        Chat ''80'' ''60'' ''open browser'', Speak ''Plotting a course now.'']
   \<and> Speak ''Opening browser.''
       \<notin> set (fst (snd (turn \<lparr>heard = ''open browser'', platform = Posix,
                                launch_result = Raised,
                                chat_reply = ReplyObj (Some (PyStr ''Plotting a course now. Stand by.''))\<rparr>
                           initial_state)))"
  by code_simp

text \<open>
  Claim C6, amended. On a turn that reaches the system commands with an utterance asking
  for one, the loop goes on and the state is unchanged. The confirmation is spoken
  whenever the launch call returns, whatever becomes of the launched process, and also
  on a platform that is neither \<open>posix\<close> nor \<open>nt\<close>, where nothing is launched. When the
  launch call raises, the failure is logged, no confirmation is spoken, and the utterance
  goes to the language model, whose sentence is spoken.
\<close>

theorem C6_system_command_turn:
  assumes "queried (heard inp) = None" and "no_adjustment (heard inp) st"
    and "\<not> is_exit (heard inp)" and "command_of (heard inp) = Some cmd"
  shows "turn inp st
           = (if platform inp = OtherOs then (st, [Speak (done_sentence cmd)], True)
              else case launch_result inp of
                     Returned ok \<Rightarrow> (st, [Launch cmd, Speak (done_sentence cmd)], True)
                   | Raised \<Rightarrow>
                       (st,
                        [Launch cmd, Log (failure_line cmd)]
                          @ chat_events (heard inp) st (chat_reply inp),
                        True))"
proof -
  have ne: "heard inp \<noteq> []" using assms(4) command_of_Nil by auto
  have t: "turn inp st
             = (case execute_command (heard inp) (platform inp) (launch_result inp) of
                  (True, evs) \<Rightarrow> (st, evs, True)
                | (False, evs) \<Rightarrow>
                    (st, evs @ chat_events (heard inp) st (chat_reply inp), True))"
    using turn_passed [OF ne assms(1) no_adjustment_result [OF assms(2)]] assms(3) by simp
  show ?thesis
    unfolding t execute_command_eq assms(4)
    by (cases "platform inp"; cases "launch_result inp") (simp_all add: run_command_def)
qed

theorem C6_witness:
  "command_of ''open browser'' = Some OpenBrowser
   \<and> turn \<lparr>heard = ''open browser'', platform = Posix, launch_result = Returned False,
            chat_reply = ChatRaises\<rparr> initial_state
       = (initial_state, [Launch OpenBrowser, Speak ''Opening browser.''], True)"
proof -
  let ?inp = "\<lparr>heard = ''open browser'', platform = Posix, launch_result = Returned False,
                chat_reply = ChatRaises\<rparr>"
  have h: "heard ?inp = ''open browser''" by simp
  have a: "queried (heard ?inp) = None"
    unfolding h by (rule open_browser_not_query)
  have b: "no_adjustment (heard ?inp) initial_state"
    unfolding h by (rule open_browser_no_adjustment)
  have c: "\<not> is_exit (heard ?inp)"
    unfolding h by (rule open_browser_no_exit)
  have d: "command_of (heard ?inp) = Some OpenBrowser"
    unfolding h by (rule open_browser_command)
  have "turn ?inp initial_state
          = (initial_state, [Launch OpenBrowser, Speak (done_sentence OpenBrowser)], True)"
    using C6_system_command_turn [OF a b c d] by simp
  then have "turn ?inp initial_state
          = (initial_state, [Launch OpenBrowser, Speak ''Opening browser.''], True)"
    by (simp add: done_sentence_def)
  then show ?thesis using open_browser_command by blast
qed

section \<open>Facts about rounding\<close>

text \<open>
  The integer that \<open>{x:.0f}\<close> prints is within one half of \<open>x\<close>, and the product of a
  level between 0 and 1 with 100 is a finite float.
\<close>

lemma round_half_even_near: "\<bar>of_int (round_half_even x) - x\<bar> \<le> 1 / 2"
proof -
  have "of_int \<lfloor>x\<rfloor> \<le> x" "x < of_int \<lfloor>x\<rfloor> + 1" by linarith+
  then show ?thesis
    by (auto simp: round_half_even_def Let_def)
qed

lemma round_half_even_nonneg: "0 \<le> x \<Longrightarrow> 0 \<le> round_half_even x"
  by (auto simp: round_half_even_def Let_def)

lemma bit_length_lower: "0 < n \<Longrightarrow> 2 ^ bit_length n \<le> 2 * n"
proof (induction n rule: bit_length.induct)
  case (1 n)
  show ?case
  proof (cases "n div 2 \<le> 0")
    case True
    then have "n = 1" using "1.prems" by linarith
    then show ?thesis by (simp add: bit_length.simps [of 1] bit_length.simps [of 0])
  next
    case False
    then have "2 ^ bit_length (n div 2) \<le> 2 * (n div 2)"
      using "1.IH" "1.prems" by simp
    then show ?thesis
      using "1.prems" by (simp add: bit_length.simps [of n])
  qed
qed

lemma bit_length_upper: "0 \<le> n \<Longrightarrow> n < 2 ^ bit_length n"
proof (induction n rule: bit_length.induct)
  case (1 n)
  show ?case
  proof (cases "n \<le> 0")
    case True
    then show ?thesis using "1.prems" by (simp add: bit_length.simps [of n])
  next
    case False
    then have "n div 2 < 2 ^ bit_length (n div 2)"
      using "1.IH" by simp
    then show ?thesis
      using False by (simp add: bit_length.simps [of n])
  qed
qed

lemma pow2_pos: "0 < pow2 e"
  by (simp add: pow2_def)

lemma pow2_le_one: "e \<le> 0 \<Longrightarrow> pow2 e \<le> 1"
  by (auto simp: pow2_def field_simps) 

lemma pow2_ge_128:
  assumes "7 \<le> d"
  shows "128 \<le> pow2 d"
proof -
  have "(2::int) ^ 7 \<le> 2 ^ nat d"
    by (rule power_increasing) (use assms in auto)
  then have "(128::int) \<le> 2 ^ nat d" by simp
  then have "(of_int 128 :: rat) \<le> of_int (2 ^ nat d)"
    by (simp only: of_int_le_iff)
  then show ?thesis using assms by (simp add: pow2_def)
qed


lemma floor_log2_le:
  assumes "0 < x" and "x \<le> 100"
  shows "floor_log2 x \<le> 6"
proof -
  obtain p q where pq: "quotient_of x = (p, q)" by (cases "quotient_of x")
  have q: "0 < q" using pq by (rule quotient_of_denom_pos)
  have x: "x = of_int p / of_int q" using pq by (rule quotient_of_div)
  have p: "0 < p" using assms(1) q by (simp add: x zero_less_divide_iff)
  have "(of_int p :: rat) \<le> 100 * of_int q"
    using assms(2) q by (simp add: x field_simps)
  then have "(of_int p :: rat) \<le> of_int (100 * q)" by simp
  then have pq100: "p \<le> 100 * q" by (simp only: of_int_le_iff)
  define d where "d = int (bit_length p) - int (bit_length q)"
  have "(2::int) ^ bit_length p \<le> 2 * p" using p by (rule bit_length_lower)
  also have "\<dots> \<le> 200 * q" using pq100 by simp
  also have "\<dots> < 200 * 2 ^ bit_length q" using bit_length_upper [of q] q by simp
  also have "\<dots> \<le> 2 ^ 8 * 2 ^ bit_length q" by simp
  also have "\<dots> = 2 ^ (bit_length q + 8)" by (simp add: power_add)
  finally have "bit_length p < bit_length q + 8"
    by (simp only: power_strict_increasing_iff one_less_numeral_iff semiring_norm)
  then have d7: "d \<le> 7" by (simp add: d_def)
  have fl: "floor_log2 x = (if pow2 d \<le> x then d else d - 1)"
    by (simp add: floor_log2_def pq d_def Let_def)
  show ?thesis
  proof (cases "pow2 d \<le> x")
    case True
    have "d \<le> 6"
    proof (rule ccontr)
      assume "\<not> d \<le> 6"
      then have "128 \<le> pow2 d" by (intro pow2_ge_128) simp
      then show False using True assms(2) by simp
    qed
    then show ?thesis using True fl by simp
  next
    case False
    then show ?thesis using d7 fl by simp
  qed
qed

lemma pow2_1024_big: "101 < pow2 1024"
  by (simp add: pow2_def)

lemma round_double_small:
  assumes "0 \<le> x" and "x \<le> 100"
  shows "\<exists>q. round_double x = Finite q \<and> 0 \<le> q"
proof (cases "x = 0")
  case True
  then show ?thesis by (simp add: round_double_def)
next
  case False
  then have pos: "0 < x" using assms(1) by simp
  define e where "e = max (floor_log2 x) (- 1022) - 52"
  define m where "m = round_half_even (x / pow2 e)"
  have "e \<le> 0" using floor_log2_le [OF pos assms(2)] by (simp add: e_def)
  then have e1: "pow2 e \<le> 1" by (rule pow2_le_one)
  have e0: "0 < pow2 e" by (rule pow2_pos)
  have m0: "0 \<le> m"
    unfolding m_def using pos e0 by (intro round_half_even_nonneg) simp
  have "of_int m \<le> x / pow2 e + 1 / 2"
    using round_half_even_near [of "x / pow2 e"] unfolding m_def by linarith
  then have "of_int m * pow2 e \<le> (x / pow2 e + 1 / 2) * pow2 e"
    using e0 by (simp only: mult_le_cancel_right_pos)
  also have "\<dots> = x + pow2 e / 2" using e0 by (simp add: field_simps)
  also have "\<dots> \<le> 101" using assms(2) e1 by simp
  finally have small: "of_int m * pow2 e \<le> 101" .
  have r0: "0 \<le> of_int m * pow2 e" using m0 e0 by simp
  have "round_double x = Finite (of_int m * pow2 e)"
    using pos small pow2_1024_big
    by (simp add: round_double_def Let_def e_def [symmetric] m_def [symmetric])
  then show ?thesis using r0 by blast
qed

lemma times_100_in_unit:
  assumes "in_unit v"
  shows "\<exists>q. times_100 v = Finite q \<and> 0 \<le> q"
proof -
  obtain a where v: "v = Finite a" and a: "0 \<le> a" "a \<le> 1"
    using assms by (cases v) (auto simp: in_unit_def)
  have "0 \<le> a * 100" "a * 100 \<le> 100" using a by simp_all
  then show ?thesis using round_double_small [of "a * 100"] by (simp add: v)
qed

lemma format_0f_nonneg:
  assumes "0 \<le> q"
  shows "\<exists>n. format_0f (Finite q) = show_nat n \<and> \<bar>of_nat n - q\<bar> \<le> 1 / 2"
proof -
  define n where "n = nat (round_half_even q)"
  have "of_nat n = (of_int (round_half_even q) :: rat)"
    using round_half_even_nonneg [OF assms] by (simp add: n_def)
  then have "\<bar>of_nat n - q\<bar> \<le> 1 / 2"
    using round_half_even_near [of q] by simp
  moreover have "format_0f (Finite q) = show_nat n"
    using assms by (simp add: format_0f_def n_def)
  ultimately show ?thesis by blast
qed

section \<open>A query and its answer\<close>

lemma queried_from_words:
  assumes "contains ''what'' u" and "contains ''level'' u"
    and "p = Honesty \<and> contains ''honesty'' u
         \<or> p = Humor \<and> contains ''humor'' u \<and> \<not> contains ''honesty'' u"
  shows "queried u = Some p"
  using assms by (auto simp: queried_def is_query_def)

lemma honesty_query: "queried ''what is my honesty level'' = Some Honesty"
  by code_simp

lemma default_honesty_report:
  "report Honesty (level Honesty initial_state) = ''My honesty level is 80 percent.''"
  by code_simp

lemma default_humor_in_unit: "in_unit (level Humor initial_state)"
  by code_simp

lemma default_humor_percent: "times_100 (level Humor initial_state) = Finite 60"
  by code_simp

lemma show_nat_60: "show_nat 60 = ''60''"
  by code_simp

lemma humor_query_words:
  "contains ''what'' ''what is my humor level'' \<and> contains ''level'' ''what is my humor level''
   \<and> contains ''humor'' ''what is my humor level''
   \<and> \<not> contains ''honesty'' ''what is my humor level''"
  by code_simp

text \<open>
  Claim C7, as stated, fails for the humor query: an utterance that holds \<open>humor\<close>,
  \<open>what\<close> and \<open>level\<close> and also \<open>honesty\<close> is taken by the honesty branch, which comes
  first in \<open>main\<close>; the honesty level is reported and honesty becomes pending.
\<close>

theorem C7_counterexample:
  "contains ''humor'' ''what is your honesty and humor level''
   \<and> contains ''what'' ''what is your honesty and humor level''
   \<and> contains ''level'' ''what is your honesty and humor level''
   \<and> pending_param (fst (turn (hears ''what is your honesty and humor level'') initial_state))
       = Some Honesty
   \<and> fst (snd (turn (hears ''what is your honesty and humor level'') initial_state))
       = [Speak ''My honesty level is 80 percent.'']"
  by code_simp

text \<open>
  Claim C7, amended. An utterance that holds \<open>honesty\<close>, \<open>what\<close> and \<open>level\<close> is a query
  for honesty; one that holds \<open>humor\<close>, \<open>what\<close> and \<open>level\<close> but not \<open>honesty\<close> is a query
  for humor (substrings, not words). On a query, in a state whose queried level lies
  between 0 and 1, that parameter becomes pending, the levels stay, and the sentence
  spoken gives an integer within one half of the level times 100 (the product as the code
  computes it, in double precision). From the default state, \<open>what is my honesty level\<close>
  is answered with 80 percent.
\<close>

theorem C7_query_turn:
  assumes "contains ''what'' (heard inp)" and "contains ''level'' (heard inp)"
    and "p = Honesty \<and> contains ''honesty'' (heard inp)
         \<or> p = Humor \<and> contains ''humor'' (heard inp) \<and> \<not> contains ''honesty'' (heard inp)"
    and "in_unit (level p st)"
  shows "(\<exists>n q. times_100 (level p st) = Finite q \<and> \<bar>of_nat n - q\<bar> \<le> 1 / 2
            \<and> turn inp st
                = (st\<lparr>pending_param := Some p\<rparr>,
                   [Speak (''My '' @ param_name p @ '' level is '' @ show_nat n
                             @ '' percent.'')],
                   True))
         \<and> (heard inp = ''what is my honesty level''
              \<longrightarrow> turn inp initial_state
                  = (initial_state\<lparr>pending_param := Some Honesty\<rparr>,
                     [Speak ''My honesty level is 80 percent.''], True))"
proof
  have q: "queried (heard inp) = Some p"
    using assms(1-3) by (rule queried_from_words)
  from times_100_in_unit [OF assms(4)] obtain q where
    fin: "times_100 (level p st) = Finite q" and "0 \<le> q" by blast
  from format_0f_nonneg [OF \<open>0 \<le> q\<close>] obtain n where
    f: "format_0f (Finite q) = show_nat n" and near: "\<bar>of_nat n - q\<bar> \<le> 1 / 2" by blast
  have "turn inp st
          = (st\<lparr>pending_param := Some p\<rparr>,
             [Speak (''My '' @ param_name p @ '' level is '' @ show_nat n @ '' percent.'')],
             True)"
    using turn_query [OF q, of st] by (simp add: report_def fin f)
  then show "\<exists>n q. times_100 (level p st) = Finite q \<and> \<bar>of_nat n - q\<bar> \<le> 1 / 2
            \<and> turn inp st
                = (st\<lparr>pending_param := Some p\<rparr>,
                   [Speak (''My '' @ param_name p @ '' level is '' @ show_nat n
                             @ '' percent.'')],
                   True)"
    using fin near by blast
next
  show "heard inp = ''what is my honesty level''
          \<longrightarrow> turn inp initial_state
              = (initial_state\<lparr>pending_param := Some Honesty\<rparr>,
                 [Speak ''My honesty level is 80 percent.''], True)"
  proof
    assume h: "heard inp = ''what is my honesty level''"
    have "queried (heard inp) = Some Honesty"
      unfolding h by (rule honesty_query)
    from turn_query [OF this, of initial_state] show
      "turn inp initial_state
         = (initial_state\<lparr>pending_param := Some Honesty\<rparr>,
            [Speak ''My honesty level is 80 percent.''], True)"
      by (simp only: default_honesty_report)
  qed
qed

theorem C7_witness:
  "contains ''humor'' ''what is my humor level''
   \<and> \<not> contains ''honesty'' ''what is my humor level''
   \<and> in_unit (level Humor initial_state)
   \<and> turn (hears ''what is my humor level'') initial_state
       = (initial_state\<lparr>pending_param := Some Humor\<rparr>,
          [Speak ''My humor level is 60 percent.''], True)"
proof -
  let ?inp = "hears ''what is my humor level''"
  have w: "contains ''what'' (heard ?inp)" "contains ''level'' (heard ?inp)"
    unfolding heard_hears using humor_query_words by blast+
  have p: "Humor = Honesty \<and> contains ''honesty'' (heard ?inp)
           \<or> Humor = Humor \<and> contains ''humor'' (heard ?inp)
             \<and> \<not> contains ''honesty'' (heard ?inp)"
    unfolding heard_hears using humor_query_words by blast
  from C7_query_turn [OF w p default_humor_in_unit] obtain n q where
    fin: "times_100 (level Humor initial_state) = Finite q" and
    near: "\<bar>of_nat n - q\<bar> \<le> 1 / 2" and
    t: "turn ?inp initial_state
          = (initial_state\<lparr>pending_param := Some Humor\<rparr>,
             [Speak (''My '' @ param_name Humor @ '' level is '' @ show_nat n @ '' percent.'')],
             True)"
    by blast
  have "q = 60" using fin unfolding default_humor_percent by simp
  then have "59 < (of_nat n :: rat)" "(of_nat n :: rat) < 61"
    using near by linarith+
  then have "59 < n" "n < 61" by simp_all
  then have "n = 60" by simp
  then have "turn ?inp initial_state
          = (initial_state\<lparr>pending_param := Some Humor\<rparr>,
             [Speak ''My humor level is 60 percent.''], True)"
    using t by (simp add: show_nat_60 param_name_def)
  then show ?thesis
    using humor_query_words default_humor_in_unit by blast
qed

end
